theory Spec2Isabelle
  imports Main "HOL-Library.Word" "HOL-Library.AList"
begin

section \<open>Data model\<close>

text \<open>
  The program is one Python module, \<^verbatim>\<open>airpods-and-bluetooth-battery.py\<close>.
  Python \<^verbatim>\<open>bytes\<close> are lists of 8-bit words, Python \<^verbatim>\<open>str\<close> values are
  \<^typ>\<open>string\<close>, Python integers are \<^typ>\<open>int\<close>. A Python \<^verbatim>\<open>dict\<close> keeps
  its keys in insertion order and the program iterates over its dicts, so a dict is an
  association list whose keys are kept distinct by the operations used on it:
  \<^const>\<open>AList.update\<close> replaces the value of a key in place and appends a new key at
  the end, as \<^verbatim>\<open>d[k] = v\<close> does.
\<close>

type_synonym byte = "8 word"
type_synonym bytes = "byte list"

text \<open>The exceptions the modelled code can raise.\<close>

datatype py_error = IndexError | ValueError

text \<open>The module constants (lines 9--11).\<close>

definition APPLE_MANUFACTURER_ID :: int where
  "APPLE_MANUFACTURER_ID = 76"

definition DATA_LENGTH :: nat where
  "DATA_LENGTH = 27"

definition BATTERY_SERVICE_UUID :: string where
  "BATTERY_SERVICE_UUID = ''0000180f-0000-1000-8000-00805f9b34fb''"

section \<open>The advertisement decoder\<close>

subsection \<open>The Python built-ins it calls\<close>

text \<open>
  \<^verbatim>\<open>bytes.hex()\<close>: two lowercase hexadecimal digits per byte, the high nibble first.
\<close>

definition hexdigits :: string where
  "hexdigits = ''0123456789abcdef''"

definition hex_char :: "nat \<Rightarrow> char" where
  "hex_char d = hexdigits ! d"

definition byte_hex :: "byte \<Rightarrow> string" where
  "byte_hex b = [hex_char (unat b div 16), hex_char (unat b mod 16)]"

definition bytes_hex :: "bytes \<Rightarrow> string" where
  "bytes_hex raw_data = concat (map byte_hex raw_data)"

text \<open>
  \<^verbatim>\<open>s[i]\<close> for a non-negative index: the character, or \<^verbatim>\<open>IndexError\<close> when the
  index is not below the length.
\<close>

definition str_index :: "string \<Rightarrow> nat \<Rightarrow> py_error + char" where
  "str_index s i = (if i < length s then Inr (s ! i) else Inl IndexError)"

text \<open>
  \<^verbatim>\<open>int(c, 16)\<close> on a string of one character: the digits \<^verbatim>\<open>0\<close>--\<^verbatim>\<open>9\<close>, the
  letters \<^verbatim>\<open>a\<close>--\<^verbatim>\<open>f\<close> and \<^verbatim>\<open>A\<close>--\<^verbatim>\<open>F\<close> have a value; any other character
  raises \<^verbatim>\<open>ValueError\<close>.
\<close>

definition int16 :: "char \<Rightarrow> py_error + int" where
  "int16 c =
     (let n = (of_char c :: nat) in
      if 48 \<le> n \<and> n \<le> 57 then Inr (int n - 48)
      else if 97 \<le> n \<and> n \<le> 102 then Inr (int n - 87)
      else if 65 \<le> n \<and> n \<le> 70 then Inr (int n - 55)
      else Inl ValueError)"

subsection \<open>\<^verbatim>\<open>parse_airpods_data\<close> (lines 14--30)\<close>

text \<open>
  The nested function \<^verbatim>\<open>get_level\<close>:
  \<^verbatim>\<open>level = int(hex_char, 16); return level * 10 if level <= 10 else None\<close>.
\<close>

definition get_level :: "char \<Rightarrow> py_error + int option" where
  "get_level c =
     (case int16 c of
        Inl e \<Rightarrow> Inl e
      | Inr level \<Rightarrow> Inr (if level \<le> 10 then Some (level * 10) else None))"

text \<open>
  One assignment \<^verbatim>\<open>x_level = get_level(hex_data[i])\<close>: the index is evaluated first,
  then the call.
\<close>

definition level_at :: "string \<Rightarrow> nat \<Rightarrow> py_error + int option" where
  "level_at hex_data i =
     (case str_index hex_data i of
        Inl e \<Rightarrow> Inl e
      | Inr c \<Rightarrow> get_level c)"

text \<open>
  The function itself. The three assignments run in the order left, right, case, and the
  first exception leaves the function. The returned dict has the keys \<^verbatim>\<open>"Left"\<close>,
  \<^verbatim>\<open>"Right"\<close>, \<^verbatim>\<open>"Case"\<close> in this insertion order.
\<close>

definition parse_airpods_data :: "bytes \<Rightarrow> py_error + (string \<times> int option) list" where
  "parse_airpods_data raw_data =
     (let hex_data = bytes_hex raw_data in
      case level_at hex_data 12 of
        Inl e \<Rightarrow> Inl e
      | Inr left_level \<Rightarrow>
          (case level_at hex_data 13 of
             Inl e \<Rightarrow> Inl e
           | Inr right_level \<Rightarrow>
               (case level_at hex_data 15 of
                  Inl e \<Rightarrow> Inl e
                | Inr case_level \<Rightarrow>
                    Inr [(''Left'', left_level),
                         (''Right'', right_level),
                         (''Case'', case_level)])))"

section \<open>The scan loop\<close>

subsection \<open>What the scanner reports\<close>

text \<open>
  Of a discovered device (\<^verbatim>\<open>dev\<close>) the program reads \<^verbatim>\<open>name\<close>, which may be
  \<^verbatim>\<open>None\<close>, and \<^verbatim>\<open>address\<close>; of its advertisement (\<^verbatim>\<open>adv\<close>) it reads the dict
  \<^verbatim>\<open>manufacturer_data\<close>, from manufacturer ids to bytes, which is only looked up and so
  is a map, and the list \<^verbatim>\<open>service_uuids\<close>.
\<close>

record device =
  name :: "string option"
  address :: string

record advertisement =
  manufacturer_data :: "int \<rightharpoonup> bytes"
  service_uuids :: "string list"

text \<open>
  An entry of \<^verbatim>\<open>devices_found\<close> is one of the two dicts
  \<^verbatim>\<open>{"type": "airpods", "data": ...}\<close> and \<^verbatim>\<open>{"type": "standard", "address": ...}\<close>.
\<close>

datatype info = Airpods bytes | Standard string

type_synonym devices = "(string \<times> info) list"

text \<open>
  \<^verbatim>\<open>dev.name or placeholder\<close>: the placeholder when the name is \<^verbatim>\<open>None\<close> or the empty
  string, both of which Python takes as false.
\<close>

definition name_or :: "string option \<Rightarrow> string \<Rightarrow> string" where
  "name_or x placeholder =
     (case x of
        None \<Rightarrow> placeholder
      | Some s \<Rightarrow> if s = [] then placeholder else s)"

subsection \<open>\<^verbatim>\<open>scan_and_update\<close> (lines 86--111)\<close>

text \<open>The body of the \<^verbatim>\<open>for dev, adv in ...\<close> loop, lines 96--106.\<close>

definition scan_body :: "devices \<Rightarrow> device \<times> advertisement \<Rightarrow> devices" where
  "scan_body devices_found obs =
     (case obs of (dev, adv) \<Rightarrow>
        if manufacturer_data adv APPLE_MANUFACTURER_ID \<noteq> None \<and>
           length (the (manufacturer_data adv APPLE_MANUFACTURER_ID)) = DATA_LENGTH
        then
          (let n = name_or (name dev) ''AirPods'' in
           if n \<notin> fst ` set devices_found
           then AList.update n (Airpods (the (manufacturer_data adv APPLE_MANUFACTURER_ID)))
                  devices_found
           else devices_found)
        else if BATTERY_SERVICE_UUID \<in> set (service_uuids adv)
        then
          (let n = name_or (name dev) ''Unknown Device'' in
           if n \<notin> fst ` set devices_found
           then AList.update n (Standard (address dev)) devices_found
           else devices_found)
        else devices_found)"

text \<open>
  The whole \<^verbatim>\<open>for\<close> loop of one cycle, from \<^verbatim>\<open>devices_found = {}\<close>, over the
  observations in the order the scanner's dict yields them.
\<close>

definition collect_devices :: "(device \<times> advertisement) list \<Rightarrow> devices" where
  "collect_devices discovered = foldl scan_body [] discovered"

text \<open>
  How the loop body classifies one observation, read off the body itself: the entry it
  puts into an empty \<^verbatim>\<open>devices_found\<close>, if any.
\<close>

definition classify :: "device \<times> advertisement \<Rightarrow> (string \<times> info) option" where
  "classify obs = (case scan_body [] obs of [] \<Rightarrow> None | entry # _ \<Rightarrow> Some entry)"

text \<open>
  What the worker hands to the Tk main loop: each \<^verbatim>\<open>self.after(0, f, arg)\<close> queues one
  callback, either \<^verbatim>\<open>status_label.config\<close> with a text or \<^verbatim>\<open>update_gui\<close> with the
  cycle's \<^verbatim>\<open>devices_found\<close>.
\<close>

datatype callback = StatusConfig string | UpdateGui devices

text \<open>
  What the scanner does in one cycle. Either the block
  \<^verbatim>\<open>async with BleakScanner() as scanner\<close> runs to its end and the loop has read the
  discovered observations, or the scanner raises, on entering the block (the adapter is
  off, a permission is missing) or on leaving it.
\<close>

datatype scan = Discovered "(device \<times> advertisement) list" | ScanFailed

text \<open>
  The \<^verbatim>\<open>while True\<close> loop does not return. The model is given what the scanner does
  in the first cycles, one \<^typ>\<open>scan\<close> per cycle, and yields the callbacks queued during
  these cycles, in the order of the \<^verbatim>\<open>after\<close> calls. The status \<^verbatim>\<open>Scanning...\<close>
  is queued before the scanner is opened. The function has no \<^verbatim>\<open>try\<close>: an exception
  of the scanner leaves the loop and the coroutine, so nothing is queued after it and no
  later cycle runs.
\<close>

fun scan_and_update :: "scan list \<Rightarrow> callback list" where
  "scan_and_update [] = []"
| "scan_and_update (ScanFailed # later) =
     [StatusConfig ''Scanning...'']"
| "scan_and_update (Discovered discovered # later) =
     StatusConfig ''Scanning...'' #
     UpdateGui (collect_devices discovered) #
     StatusConfig ''Scan complete. Next scan in 15s.'' #
     scan_and_update later"

section \<open>The window\<close>

text \<open>
  Of the window the model keeps what the callbacks write: the text of
  \<^verbatim>\<open>status_label\<close> and the dict \<^verbatim>\<open>device_frames\<close>, from a device name to its
  container, a container being the list of the widgets packed into it.
\<close>

datatype widget = DeviceBatteryFrame string "int option" | Label string

type_synonym frames = "(string \<times> widget list) list"

record gui =
  status_label :: string
  device_frames :: frames

text \<open>The window as \<^verbatim>\<open>__init__\<close> leaves it (lines 74--77).\<close>

definition init_gui :: gui where
  "init_gui = \<lparr>status_label = ''Scanning...'', device_frames = []\<rparr>"

subsection \<open>\<^verbatim>\<open>update_gui\<close> (lines 113--144)\<close>

text \<open>
  The first loop, lines 120--123: over a copy of the keys, each name that is not in
  \<^verbatim>\<open>devices\<close> is deleted.
\<close>

definition remove_old_frames :: "devices \<Rightarrow> frames \<Rightarrow> frames" where
  "remove_old_frames devs fs =
     fold (\<lambda>n acc. if n \<notin> fst ` set devs then AList.delete n acc else acc) (map fst fs) fs"

text \<open>
  The second loop, lines 126--144, over \<^verbatim>\<open>devices.items()\<close>. A name without a
  container gets an empty one; the container's widgets are destroyed; then it is filled
  again, for the type \<^verbatim>\<open>airpods\<close> with one \<^verbatim>\<open>DeviceBatteryFrame\<close> per item of the
  decoder's dict, for \<^verbatim>\<open>standard\<close> with one label. An exception of the decoder leaves
  the loop and the function; the frames are as they were at that moment.
\<close>

fun add_update_frames :: "frames \<Rightarrow> devices \<Rightarrow> frames \<times> py_error option" where
  "add_update_frames fs [] = (fs, None)"
| "add_update_frames fs ((n, entry) # rest) =
     (let fs1 = (if n \<notin> fst ` set fs then AList.update n [] fs else fs);
          fs2 = AList.update n [] fs1
      in case entry of
           Airpods data \<Rightarrow>
             (case parse_airpods_data data of
                Inl e \<Rightarrow> (fs2, Some e)
              | Inr battery_data \<Rightarrow>
                  add_update_frames
                    (AList.update n
                       (map (\<lambda>(part, level). DeviceBatteryFrame part level) battery_data) fs2)
                    rest)
         | Standard addr \<Rightarrow>
             add_update_frames
               (AList.update n [Label ''Standard battery device detected.''] fs2) rest)"

text \<open>
  The function: the window after the call, and the exception it raised, if any.
\<close>

definition update_gui :: "gui \<Rightarrow> devices \<Rightarrow> gui \<times> py_error option" where
  "update_gui g devs =
     (if devs = []
      then (g\<lparr>status_label := ''No devices found. Retrying...''\<rparr>, None)
      else
        (case add_update_frames (remove_old_frames devs (device_frames g)) devs of
           (fs, err) \<Rightarrow> (g\<lparr>device_frames := fs\<rparr>, err)))"

subsection \<open>The main loop\<close>

text \<open>
  Tk runs the queued callbacks one after the other; an exception of a callback is
  reported and the loop goes on with the window as the callback left it.
\<close>

fun run_callback :: "gui \<Rightarrow> callback \<Rightarrow> gui" where
  "run_callback g (StatusConfig txt) = g\<lparr>status_label := txt\<rparr>"
| "run_callback g (UpdateGui devs) = fst (update_gui g devs)"

definition mainloop :: "gui \<Rightarrow> callback list \<Rightarrow> gui" where
  "mainloop g callbacks = foldl run_callback g callbacks"

section \<open>Properties of the decoder\<close>

subsection \<open>The hexadecimal rendering\<close>

lemma length_byte_hex: "length (byte_hex b) = 2"
  by (simp add: byte_hex_def)

lemma length_bytes_hex: "length (bytes_hex raw_data) = 2 * length raw_data"
  by (induction raw_data) (simp_all add: bytes_hex_def byte_hex_def)

lemma bytes_hex_Cons: "bytes_hex (b # bs) = hex_char (unat b div 16) # hex_char (unat b mod 16) # bytes_hex bs"
  by (simp add: bytes_hex_def byte_hex_def)

lemma bytes_hex_nth:
  "i < length raw_data \<Longrightarrow>
     bytes_hex raw_data ! (2 * i) = hex_char (unat (raw_data ! i) div 16) \<and>
     bytes_hex raw_data ! Suc (2 * i) = hex_char (unat (raw_data ! i) mod 16)"
proof (induction raw_data arbitrary: i)
  case Nil
  then show ?case by simp
next
  case (Cons b bs)
  show ?case
  proof (cases i)
    case 0
    then show ?thesis by (simp add: bytes_hex_Cons)
  next
    case (Suc j)
    with Cons.prems have "j < length bs" by simp
    from Cons.IH [OF this] Suc show ?thesis by (simp add: bytes_hex_Cons)
  qed
qed

lemma below_16_cases:
  "d < 16 \<Longrightarrow> d = 0 \<or> d = 1 \<or> d = 2 \<or> d = 3 \<or> d = 4 \<or> d = 5 \<or> d = 6 \<or> d = 7 \<or>
     d = 8 \<or> d = 9 \<or> d = 10 \<or> d = 11 \<or> d = 12 \<or> d = 13 \<or> d = 14 \<or> d = (15::nat)"
  by arith

lemma int16_hex_char: "d < 16 \<Longrightarrow> int16 (hex_char d) = Inr (int d)"
  by (drule below_16_cases) (elim disjE; simp add: int16_def hex_char_def hexdigits_def)

lemma hex_char_in: "d < 16 \<Longrightarrow> hex_char d \<in> set hexdigits"
  by (drule below_16_cases) (elim disjE; simp add: hex_char_def hexdigits_def)

lemma high_nibble_below: "unat (b :: byte) div 16 < 16"
proof -
  have "unat b < 256" using unsigned_less [of b] by simp
  then show ?thesis by simp
qed

lemma set_byte_hex: "set (byte_hex b) \<subseteq> set hexdigits"
  by (simp add: byte_hex_def hex_char_in high_nibble_below)

lemma set_bytes_hex: "set (bytes_hex raw_data) \<subseteq> set hexdigits"
  using set_byte_hex by (auto simp: bytes_hex_def)

lemma level_at_even:
  "i < length raw_data \<Longrightarrow>
     level_at (bytes_hex raw_data) (2 * i) =
       Inr (let d = int (unat (raw_data ! i) div 16) in if d \<le> 10 then Some (d * 10) else None)"
  by (simp add: level_at_def str_index_def length_bytes_hex bytes_hex_nth get_level_def
      int16_hex_char high_nibble_below Let_def)

lemma level_at_odd:
  "i < length raw_data \<Longrightarrow>
     level_at (bytes_hex raw_data) (Suc (2 * i)) =
       Inr (let d = int (unat (raw_data ! i) mod 16) in if d \<le> 10 then Some (d * 10) else None)"
  by (simp add: level_at_def str_index_def length_bytes_hex bytes_hex_nth get_level_def
      int16_hex_char Let_def)

lemma parse_airpods_data_closed_form:
  assumes "8 \<le> length raw_data"
  shows "parse_airpods_data raw_data =
    Inr [(''Left'', let d = int (unat (raw_data ! 6) div 16) in if d \<le> 10 then Some (d * 10) else None),
         (''Right'', let d = int (unat (raw_data ! 6) mod 16) in if d \<le> 10 then Some (d * 10) else None),
         (''Case'', let d = int (unat (raw_data ! 7) mod 16) in if d \<le> 10 then Some (d * 10) else None)]"
proof -
  have 6: "6 < length raw_data" and 7: "7 < length raw_data" using assms by simp_all
  have "level_at (bytes_hex raw_data) 12 = Inr (let d = int (unat (raw_data ! 6) div 16) in if d \<le> 10 then Some (d * 10) else None)"
    using level_at_even [OF 6] by simp
  moreover have "level_at (bytes_hex raw_data) 13 = Inr (let d = int (unat (raw_data ! 6) mod 16) in if d \<le> 10 then Some (d * 10) else None)"
    using level_at_odd [OF 6] by simp
  moreover have "level_at (bytes_hex raw_data) 15 = Inr (let d = int (unat (raw_data ! 7) mod 16) in if d \<le> 10 then Some (d * 10) else None)"
    using level_at_odd [OF 7] by simp
  ultimately show ?thesis
    by (simp add: parse_airpods_data_def)
qed

text \<open>
  Below 8 bytes one of the three index operations is out of range, and the decoder raises
  \<^verbatim>\<open>IndexError\<close>.
\<close>

lemma parse_airpods_data_too_short:
  assumes "length raw_data < 8"
  shows "parse_airpods_data raw_data = Inl IndexError"
proof (cases "length raw_data < 7")
  case True
  then have "level_at (bytes_hex raw_data) 12 = Inl IndexError"
    by (simp add: level_at_def str_index_def length_bytes_hex)
  then show ?thesis by (simp add: parse_airpods_data_def)
next
  case False
  with assms have 7: "length raw_data = 7" by simp
  then have 6: "6 < length raw_data" by simp
  have "level_at (bytes_hex raw_data) 15 = Inl IndexError"
    using 7 by (simp add: level_at_def str_index_def length_bytes_hex)
  with level_at_even [OF 6] level_at_odd [OF 6] show ?thesis
    by (simp add: parse_airpods_data_def Let_def)
qed

subsection \<open>Claims about the decoder\<close>

text \<open>
  Claim C1. For every input of 27 bytes, the decoder renders the bytes as a string of
  lowercase hexadecimal digits and returns exactly the three readings Left, Right, Case,
  in this order. Left comes from the digit at index 12 of the string, Right from index 13,
  Case from index 15; these are the high and the low nibble of byte 6 and the low nibble
  of byte 7. A digit \<open>d \<le> 10\<close> reads as \<open>d * 10\<close> percent, a digit from 11 to 15 as
  none.
\<close>

theorem decode_27_bytes:
  assumes "length raw_data = 27"
  shows "let hex_data = bytes_hex raw_data;
             l = unat (raw_data ! 6) div 16;
             r = unat (raw_data ! 6) mod 16;
             c = unat (raw_data ! 7) mod 16
         in length hex_data = 54 \<and> set hex_data \<subseteq> set ''0123456789abcdef'' \<and>
            l < 16 \<and> r < 16 \<and> c < 16 \<and>
            hex_data ! 12 = ''0123456789abcdef'' ! l \<and>
            hex_data ! 13 = ''0123456789abcdef'' ! r \<and>
            hex_data ! 15 = ''0123456789abcdef'' ! c \<and>
            parse_airpods_data raw_data =
              Inr [(''Left'', if l \<le> 10 then Some (int l * 10) else None),
                   (''Right'', if r \<le> 10 then Some (int r * 10) else None),
                   (''Case'', if c \<le> 10 then Some (int c * 10) else None)]"
proof -
  have 6: "6 < length raw_data" and 7: "7 < length raw_data" and 8: "8 \<le> length raw_data"
    using assms by simp_all
  have "length (bytes_hex raw_data) = 54"
    using assms by (simp add: length_bytes_hex)
  moreover have "set (bytes_hex raw_data) \<subseteq> set ''0123456789abcdef''"
    using set_bytes_hex [of raw_data] by (simp only: hexdigits_def)
  moreover have "bytes_hex raw_data ! 12 = ''0123456789abcdef'' ! (unat (raw_data ! 6) div 16)"
    using bytes_hex_nth [OF 6] by (simp add: hex_char_def hexdigits_def)
  moreover have "bytes_hex raw_data ! 13 = ''0123456789abcdef'' ! (unat (raw_data ! 6) mod 16)"
    using bytes_hex_nth [OF 6] by (simp add: hex_char_def hexdigits_def)
  moreover have "bytes_hex raw_data ! 15 = ''0123456789abcdef'' ! (unat (raw_data ! 7) mod 16)"
    using bytes_hex_nth [OF 7] by (simp add: hex_char_def hexdigits_def)
  moreover note parse_airpods_data_closed_form [OF 8] high_nibble_below [of "raw_data ! 6"]
  ultimately show ?thesis
    by (simp add: Let_def)
qed

text \<open>
  The example of the specification: \<^verbatim>\<open>a\<close> at index 12, \<^verbatim>\<open>5\<close> at index 13 and
  \<^verbatim>\<open>0\<close> at index 15 give Left 100, Right 50 and Case 0.
\<close>

theorem decode_27_bytes_witness:
  "length [0, 0, 0, 0, 0, 0, 0xa5, 0x10, 0, 0, 0, 0, 0, 0, 0, 0, 0, 0, 0, 0, 0, 0, 0, 0, 0, 0, 0 :: byte] = 27 \<and>
   parse_airpods_data [0, 0, 0, 0, 0, 0, 0xa5, 0x10, 0, 0, 0, 0, 0, 0, 0, 0, 0, 0, 0, 0, 0, 0, 0, 0, 0, 0, 0] =
     Inr [(''Left'', Some 100), (''Right'', Some 50), (''Case'', Some 0)]"
  using decode_27_bytes [of "[0, 0, 0, 0, 0, 0, 0xa5, 0x10, 0, 0, 0, 0, 0, 0, 0, 0, 0, 0, 0, 0, 0, 0, 0, 0, 0, 0, 0]"]
  by (simp add: Let_def)

text \<open>
  Claim C8. When the input has exactly \<^const>\<open>DATA_LENGTH\<close> bytes, its rendering has 54
  characters, each of the three index operations at 12, 13 and 15 yields a character and
  not \<^verbatim>\<open>IndexError\<close>, and the decoder returns a dict of the three readings: it raises
  no exception at all.
\<close>

theorem decode_in_bounds:
  assumes "length raw_data = DATA_LENGTH"
  shows "length (bytes_hex raw_data) = 54 \<and>
         str_index (bytes_hex raw_data) 12 = Inr (bytes_hex raw_data ! 12) \<and>
         str_index (bytes_hex raw_data) 13 = Inr (bytes_hex raw_data ! 13) \<and>
         str_index (bytes_hex raw_data) 15 = Inr (bytes_hex raw_data ! 15) \<and>
         (\<exists>l r c. parse_airpods_data raw_data = Inr [(''Left'', l), (''Right'', r), (''Case'', c)]) \<and>
         (\<forall>e. parse_airpods_data raw_data \<noteq> Inl e)"
proof -
  have len: "length (bytes_hex raw_data) = 54"
    using assms by (simp add: length_bytes_hex DATA_LENGTH_def)
  have "8 \<le> length raw_data"
    using assms by (simp add: DATA_LENGTH_def)
  from parse_airpods_data_closed_form [OF this] len show ?thesis
    by (simp add: str_index_def)
qed

theorem decode_in_bounds_witness:
  "length [1, 2, 3, 4, 5, 6, 0xfb, 0xcf, 9, 10, 11, 12, 13, 14, 15, 16, 17, 18, 19, 20, 21, 22, 23, 24, 25, 26, 27 :: byte] = DATA_LENGTH \<and>
   parse_airpods_data [1, 2, 3, 4, 5, 6, 0xfb, 0xcf, 9, 10, 11, 12, 13, 14, 15, 16, 17, 18, 19, 20, 21, 22, 23, 24, 25, 26, 27] =
     Inr [(''Left'', None), (''Right'', None), (''Case'', None)]"
  using decode_in_bounds [of "[1, 2, 3, 4, 5, 6, 0xfb, 0xcf, 9, 10, 11, 12, 13, 14, 15, 16, 17, 18, 19, 20, 21, 22, 23, 24, 25, 26, 27]"]
    parse_airpods_data_closed_form [of "[1, 2, 3, 4, 5, 6, 0xfb, 0xcf, 9, 10, 11, 12, 13, 14, 15, 16, 17, 18, 19, 20, 21, 22, 23, 24, 25, 26, 27]"]
  by (simp add: DATA_LENGTH_def Let_def)

text \<open>
  Claim C10. The result of the decoder depends on bytes 6 and 7 of the input only: two
  inputs of 27 bytes that agree on these two bytes decode to the same result, whatever
  their other 25 bytes are.
\<close>

theorem decode_depends_on_bytes_6_7:
  assumes "length a = 27" and "length b = 27"
    and "a ! 6 = b ! 6" and "a ! 7 = b ! 7"
  shows "parse_airpods_data a = parse_airpods_data b"
proof -
  have "8 \<le> length a" and "8 \<le> length b" using assms by simp_all
  then show ?thesis
    using assms(3,4) by (simp add: parse_airpods_data_closed_form)
qed

theorem decode_depends_on_bytes_6_7_witness:
  "length [0, 0, 0, 0, 0, 0, 0x3b, 0x07, 0, 0, 0, 0, 0, 0, 0, 0, 0, 0, 0, 0, 0, 0, 0, 0, 0, 0, 0 :: byte] = 27 \<and>
   length [1, 2, 3, 4, 5, 6, 0x3b, 0x07, 9, 10, 11, 12, 13, 14, 15, 16, 17, 18, 19, 20, 21, 22, 23, 24, 25, 26, 27 :: byte] = 27 \<and>
   [0, 0, 0, 0, 0, 0, 0x3b, 0x07, 0, 0, 0, 0, 0, 0, 0, 0, 0, 0, 0, 0, 0, 0, 0, 0, 0, 0, 0 :: byte] \<noteq>
     [1, 2, 3, 4, 5, 6, 0x3b, 0x07, 9, 10, 11, 12, 13, 14, 15, 16, 17, 18, 19, 20, 21, 22, 23, 24, 25, 26, 27] \<and>
   parse_airpods_data [0, 0, 0, 0, 0, 0, 0x3b, 0x07, 0, 0, 0, 0, 0, 0, 0, 0, 0, 0, 0, 0, 0, 0, 0, 0, 0, 0, 0] =
     parse_airpods_data [1, 2, 3, 4, 5, 6, 0x3b, 0x07, 9, 10, 11, 12, 13, 14, 15, 16, 17, 18, 19, 20, 21, 22, 23, 24, 25, 26, 27]"
  using decode_depends_on_bytes_6_7
    [of "[0, 0, 0, 0, 0, 0, 0x3b, 0x07, 0, 0, 0, 0, 0, 0, 0, 0, 0, 0, 0, 0, 0, 0, 0, 0, 0, 0, 0]"
        "[1, 2, 3, 4, 5, 6, 0x3b, 0x07, 9, 10, 11, 12, 13, 14, 15, 16, 17, 18, 19, 20, 21, 22, 23, 24, 25, 26, 27]"]
  by simp

section \<open>Properties of the scan loop\<close>

subsection \<open>The loop body\<close>

text \<open>
  Storing under a key that the dict does not have appends the entry; the classification
  spelled out; the loop body in terms of the classification.
\<close>

lemma update_new_key: "n \<notin> fst ` set al \<Longrightarrow> AList.update n v al = al @ [(n, v)]"
  by (induction al) auto

lemma classify_eq:
  "classify (dev, adv) =
     (case manufacturer_data adv 76 of
        None \<Rightarrow>
          (if ''0000180f-0000-1000-8000-00805f9b34fb'' \<in> set (service_uuids adv)
           then Some (name_or (name dev) ''Unknown Device'', Standard (address dev))
           else None)
      | Some d \<Rightarrow>
          (if length d = 27 then Some (name_or (name dev) ''AirPods'', Airpods d)
           else if ''0000180f-0000-1000-8000-00805f9b34fb'' \<in> set (service_uuids adv)
           then Some (name_or (name dev) ''Unknown Device'', Standard (address dev))
           else None))"
  by (simp add: classify_def scan_body_def APPLE_MANUFACTURER_ID_def DATA_LENGTH_def
      BATTERY_SERVICE_UUID_def Let_def split: option.split)

lemma scan_body_classify:
  "scan_body devices_found obs =
     (case classify obs of
        None \<Rightarrow> devices_found
      | Some entry \<Rightarrow>
          if fst entry \<in> fst ` set devices_found then devices_found
          else devices_found @ [entry])"
  by (cases obs) (simp add: classify_def scan_body_def Let_def update_new_key)

lemma scan_body_distinct:
  "distinct (map fst devices_found) \<Longrightarrow> distinct (map fst (scan_body devices_found obs))"
  by (auto simp: scan_body_classify split: option.split)

lemma foldl_scan_body_distinct:
  "distinct (map fst devices_found) \<Longrightarrow>
     distinct (map fst (foldl scan_body devices_found discovered))"
  by (induction discovered arbitrary: devices_found) (simp_all add: scan_body_distinct)

lemma filter_absent_key: "n \<notin> fst ` set al \<Longrightarrow> filter (\<lambda>entry. fst entry = n) al = []"
  by (induction al) auto

lemma scan_body_keeps_keys:
  "n \<in> fst ` set devices_found \<Longrightarrow> n \<in> fst ` set (scan_body devices_found obs)"
  by (auto simp: scan_body_classify split: option.split)

lemma scan_body_filter_present:
  "n \<in> fst ` set devices_found \<Longrightarrow>
     filter (\<lambda>entry. fst entry = n) (scan_body devices_found obs) =
     filter (\<lambda>entry. fst entry = n) devices_found"
  by (auto simp: scan_body_classify split: option.split)

lemma foldl_scan_body_filter_present:
  "n \<in> fst ` set devices_found \<Longrightarrow>
     filter (\<lambda>entry. fst entry = n) (foldl scan_body devices_found discovered) =
     filter (\<lambda>entry. fst entry = n) devices_found"
  by (induction discovered arbitrary: devices_found)
    (simp_all add: scan_body_filter_present scan_body_keeps_keys)

lemma foldl_scan_body_filter_absent:
  "n \<notin> fst ` set devices_found \<Longrightarrow>
     filter (\<lambda>entry. fst entry = n) (foldl scan_body devices_found discovered) =
       (case find (\<lambda>entry. fst entry = n) (List.map_filter classify discovered) of
          None \<Rightarrow> []
        | Some entry \<Rightarrow> [entry])"
proof (induction discovered arbitrary: devices_found)
  case Nil
  then show ?case by (simp add: filter_absent_key)
next
  case (Cons obs rest)
  show ?case
  proof (cases "classify obs")
    case None
    then have "scan_body devices_found obs = devices_found"
      by (simp add: scan_body_classify)
    with Cons None show ?thesis by simp
  next
    case (Some entry)
    show ?thesis
    proof (cases "fst entry = n")
      case True
      with Some Cons.prems have sb: "scan_body devices_found obs = devices_found @ [entry]"
        by (simp add: scan_body_classify)
      have "n \<in> fst ` set (devices_found @ [entry])" using True by simp
      from foldl_scan_body_filter_present [OF this, of rest] sb Some True Cons.prems
      show ?thesis by (simp add: filter_absent_key)
    next
      case False
      with Some Cons.prems have "n \<notin> fst ` set (scan_body devices_found obs)"
        by (auto simp: scan_body_classify)
      from Cons.IH [OF this] Some False show ?thesis by simp
    qed
  qed
qed

subsection \<open>Claims about the classification\<close>

text \<open>
  Claim C2. The loop body classifies an observation as an AirPods entry if and only if
  its manufacturer data has an entry for the id 76 and this entry has exactly 27 bytes.
  An entry for the id 76 of any other length is never classified so. The entry carries
  the manufacturer-data bytes, under the device's name, or under \<^verbatim>\<open>AirPods\<close> when
  the device has no name. The last conjunct says what the loop body does with the
  classification, whatever \<^verbatim>\<open>devices_found\<close> holds: nothing when there is none or
  the name is taken, and it appends the entry otherwise.
\<close>

theorem airpods_classification:
  "((\<exists>n d. classify (dev, adv) = Some (n, Airpods d)) \<longleftrightarrow>
      (\<exists>d. manufacturer_data adv 76 = Some d \<and> length d = 27)) \<and>
   (\<forall>d. manufacturer_data adv 76 = Some d \<and> length d \<noteq> 27 \<longrightarrow>
      (\<forall>n d'. classify (dev, adv) \<noteq> Some (n, Airpods d'))) \<and>
   (\<forall>d. manufacturer_data adv 76 = Some d \<and> length d = 27 \<longrightarrow>
      classify (dev, adv) = Some (name_or (name dev) ''AirPods'', Airpods d) \<and>
      (name dev = None \<longrightarrow> classify (dev, adv) = Some (''AirPods'', Airpods d))) \<and>
   (\<forall>devices_found.
      scan_body devices_found (dev, adv) =
        (case classify (dev, adv) of
           None \<Rightarrow> devices_found
         | Some entry \<Rightarrow>
             if fst entry \<in> fst ` set devices_found then devices_found
             else devices_found @ [entry]))"
proof -
  have link: "\<forall>devices_found.
      scan_body devices_found (dev, adv) =
        (case classify (dev, adv) of
           None \<Rightarrow> devices_found
         | Some entry \<Rightarrow>
             if fst entry \<in> fst ` set devices_found then devices_found
             else devices_found @ [entry])"
    using scan_body_classify [of _ "(dev, adv)"] by blast
  show ?thesis
  proof (cases "manufacturer_data adv 76")
    case None
    with link show ?thesis by (simp add: classify_eq)
  next
    case (Some d)
    with link show ?thesis by (simp add: classify_eq name_or_def)
  qed
qed

theorem airpods_classification_witness:
  "manufacturer_data \<lparr>manufacturer_data = [76 \<mapsto> replicate 27 0], service_uuids = []\<rparr> 76 =
     Some (replicate 27 0) \<and>
   length (replicate 27 (0 :: byte)) = 27 \<and>
   name \<lparr>name = None, address = ''AA:BB:CC:DD:EE:01''\<rparr> = None \<and>
   classify (\<lparr>name = None, address = ''AA:BB:CC:DD:EE:01''\<rparr>,
             \<lparr>manufacturer_data = [76 \<mapsto> replicate 27 0], service_uuids = []\<rparr>) =
     Some (''AirPods'', Airpods (replicate 27 0)) \<and>
   manufacturer_data \<lparr>manufacturer_data = [76 \<mapsto> replicate 26 0], service_uuids = []\<rparr> 76 =
     Some (replicate 26 0) \<and>
   length (replicate 26 (0 :: byte)) \<noteq> 27 \<and>
   (\<forall>n d. classify (\<lparr>name = None, address = ''AA:BB:CC:DD:EE:01''\<rparr>,
                    \<lparr>manufacturer_data = [76 \<mapsto> replicate 26 0], service_uuids = []\<rparr>) \<noteq>
            Some (n, Airpods d))"
  using
    airpods_classification [of "\<lparr>name = None, address = ''AA:BB:CC:DD:EE:01''\<rparr>"
      "\<lparr>manufacturer_data = [76 \<mapsto> replicate 27 0], service_uuids = []\<rparr>"]
    airpods_classification [of "\<lparr>name = None, address = ''AA:BB:CC:DD:EE:01''\<rparr>"
      "\<lparr>manufacturer_data = [76 \<mapsto> replicate 26 0], service_uuids = []\<rparr>"]
  by (simp add: name_or_def)

text \<open>
  Claim C3. An observation that is not classified as AirPods is classified as a standard
  battery device when its service UUIDs contain the battery-service UUID; the entry holds
  the device's address and nothing else, under the device's name or under
  \<^verbatim>\<open>Unknown Device\<close> when it has none. An observation that meets neither test
  leaves \<^verbatim>\<open>devices_found\<close> as it is.
\<close>

theorem standard_classification:
  "\<not> (\<exists>d. manufacturer_data adv 76 = Some d \<and> length d = 27) \<longrightarrow>
     (''0000180f-0000-1000-8000-00805f9b34fb'' \<in> set (service_uuids adv) \<longrightarrow>
        classify (dev, adv) = Some (name_or (name dev) ''Unknown Device'', Standard (address dev)) \<and>
        (name dev = None \<longrightarrow>
           classify (dev, adv) = Some (''Unknown Device'', Standard (address dev))) \<and>
        (\<forall>devices_found.
           scan_body devices_found (dev, adv) =
             (if name_or (name dev) ''Unknown Device'' \<in> fst ` set devices_found
              then devices_found
              else devices_found @
                [(name_or (name dev) ''Unknown Device'', Standard (address dev))]))) \<and>
     (''0000180f-0000-1000-8000-00805f9b34fb'' \<notin> set (service_uuids adv) \<longrightarrow>
        classify (dev, adv) = None \<and>
        (\<forall>devices_found. scan_body devices_found (dev, adv) = devices_found))"
  by (cases "manufacturer_data adv 76")
    (auto simp: classify_eq name_or_def scan_body_classify [of _ "(dev, adv)"])

theorem standard_classification_witness:
  "\<not> (\<exists>d. manufacturer_data
            \<lparr>manufacturer_data = Map.empty,
             service_uuids = [''0000180f-0000-1000-8000-00805f9b34fb'']\<rparr> 76 = Some d \<and>
          length d = 27) \<and>
   ''0000180f-0000-1000-8000-00805f9b34fb'' \<in>
     set (service_uuids \<lparr>manufacturer_data = Map.empty,
            service_uuids = [''0000180f-0000-1000-8000-00805f9b34fb'']\<rparr>) \<and>
   name \<lparr>name = None, address = ''AA:BB:CC:DD:EE:02''\<rparr> = None \<and>
   classify (\<lparr>name = None, address = ''AA:BB:CC:DD:EE:02''\<rparr>,
             \<lparr>manufacturer_data = Map.empty,
              service_uuids = [''0000180f-0000-1000-8000-00805f9b34fb'']\<rparr>) =
     Some (''Unknown Device'', Standard ''AA:BB:CC:DD:EE:02'') \<and>
   \<not> (\<exists>d. manufacturer_data
            \<lparr>manufacturer_data = [76 \<mapsto> replicate 26 0],
             service_uuids = [''0000180a-0000-1000-8000-00805f9b34fb'']\<rparr> 76 = Some d \<and>
          length d = 27) \<and>
   ''0000180f-0000-1000-8000-00805f9b34fb'' \<notin>
     set (service_uuids \<lparr>manufacturer_data = [76 \<mapsto> replicate 26 0],
            service_uuids = [''0000180a-0000-1000-8000-00805f9b34fb'']\<rparr>) \<and>
   scan_body [(''Keyboard'', Standard ''AA:BB:CC:DD:EE:03'')]
     (\<lparr>name = Some ''Tag'', address = ''AA:BB:CC:DD:EE:04''\<rparr>,
      \<lparr>manufacturer_data = [76 \<mapsto> replicate 26 0],
       service_uuids = [''0000180a-0000-1000-8000-00805f9b34fb'']\<rparr>) =
     [(''Keyboard'', Standard ''AA:BB:CC:DD:EE:03'')]"
  using
    standard_classification [of
      "\<lparr>manufacturer_data = Map.empty,
        service_uuids = [''0000180f-0000-1000-8000-00805f9b34fb'']\<rparr>"
      "\<lparr>name = None, address = ''AA:BB:CC:DD:EE:02''\<rparr>"]
    standard_classification [of
      "\<lparr>manufacturer_data = [76 \<mapsto> replicate 26 0],
        service_uuids = [''0000180a-0000-1000-8000-00805f9b34fb'']\<rparr>"
      "\<lparr>name = Some ''Tag'', address = ''AA:BB:CC:DD:EE:04''\<rparr>"]
  by (simp add: name_or_def)

text \<open>
  Claim C4. In the dict built in one cycle the names are distinct, and the entries under
  a name \<open>n\<close> are exactly one, the classification of the first observation of the
  cycle that resolves to \<open>n\<close>, or none when no observation resolves to \<open>n\<close>. So
  every later observation that resolves to the same name is dropped.
\<close>

theorem first_seen_wins:
  "distinct (map fst (collect_devices discovered)) \<and>
   filter (\<lambda>entry. fst entry = n) (collect_devices discovered) =
     (case find (\<lambda>entry. fst entry = n) (List.map_filter classify discovered) of
        None \<Rightarrow> []
      | Some entry \<Rightarrow> [entry])"
  by (simp add: collect_devices_def foldl_scan_body_distinct foldl_scan_body_filter_absent)

theorem first_seen_wins_witness:
  "filter (\<lambda>entry. fst entry = ''AirPods'')
     (collect_devices
        [(\<lparr>name = None, address = ''AA:BB:CC:DD:EE:01''\<rparr>,
          \<lparr>manufacturer_data = [76 \<mapsto> replicate 27 1], service_uuids = []\<rparr>),
         (\<lparr>name = None, address = ''AA:BB:CC:DD:EE:05''\<rparr>,
          \<lparr>manufacturer_data = [76 \<mapsto> replicate 27 2], service_uuids = []\<rparr>),
         (\<lparr>name = Some ''AirPods'', address = ''AA:BB:CC:DD:EE:06''\<rparr>,
          \<lparr>manufacturer_data = Map.empty,
           service_uuids = [''0000180f-0000-1000-8000-00805f9b34fb'']\<rparr>)]) =
     [(''AirPods'', Airpods (replicate 27 1))]"
  using first_seen_wins [of
        "[(\<lparr>name = None, address = ''AA:BB:CC:DD:EE:01''\<rparr>,
          \<lparr>manufacturer_data = [76 \<mapsto> replicate 27 1], service_uuids = []\<rparr>),
         (\<lparr>name = None, address = ''AA:BB:CC:DD:EE:05''\<rparr>,
          \<lparr>manufacturer_data = [76 \<mapsto> replicate 27 2], service_uuids = []\<rparr>),
         (\<lparr>name = Some ''AirPods'', address = ''AA:BB:CC:DD:EE:06''\<rparr>,
          \<lparr>manufacturer_data = Map.empty,
           service_uuids = [''0000180f-0000-1000-8000-00805f9b34fb'']\<rparr>)]" "''AirPods''"]
  by (simp add: classify_eq name_or_def)

section \<open>Properties of the cycle and of the window\<close>

subsection \<open>The callbacks of a cycle\<close>

lemma foldl_scan_body_none:
  "list_all (\<lambda>obs. classify obs = None) discovered \<Longrightarrow>
     foldl scan_body devices_found discovered = devices_found"
  by (induction discovered arbitrary: devices_found) (simp_all add: scan_body_classify)

lemma length_scan_and_update:
  "length (scan_and_update (map Discovered completed)) = 3 * length completed"
  by (induction completed) simp_all

lemma scan_and_update_append:
  "scan_and_update (map Discovered completed @ rest) =
     scan_and_update (map Discovered completed) @ scan_and_update rest"
  by (induction completed) simp_all

lemma scan_and_update_nth:
  "k < length completed \<Longrightarrow>
     scan_and_update (map Discovered completed @ rest) ! (3 * k) =
       StatusConfig ''Scanning...'' \<and>
     scan_and_update (map Discovered completed @ rest) ! (3 * k + 1) =
       UpdateGui (collect_devices (completed ! k)) \<and>
     scan_and_update (map Discovered completed @ rest) ! (3 * k + 2) =
       StatusConfig ''Scan complete. Next scan in 15s.''"
proof (induction completed arbitrary: k)
  case Nil
  then show ?case by simp
next
  case (Cons discovered later)
  show ?case
  proof (cases k)
    case 0
    then show ?thesis by simp
  next
    case (Suc j)
    with Cons.prems have "j < length later" by simp
    from Cons.IH [OF this] Suc show ?thesis
      by (simp add: numeral_3_eq_3)
  qed
qed

text \<open>
  Claim C5. In a cycle whose scan observes no qualifying device, \<^verbatim>\<open>devices_found\<close> is
  empty and is still handed to \<^verbatim>\<open>update_gui\<close>, between the two status callbacks.
  \<^verbatim>\<open>update_gui\<close> on it raises nothing and sets the status text to
  \<^verbatim>\<open>No devices found. Retrying...\<close>; it changes nothing else of the window. The
  third callback of the cycle then sets the status text of every cycle, so after the
  whole cycle the window is as before it, with the scan-complete status.
\<close>

theorem empty_cycle:
  assumes "list_all (\<lambda>obs. classify obs = None) discovered"
  shows "collect_devices discovered = [] \<and>
         scan_and_update (Discovered discovered # later) =
           StatusConfig ''Scanning...'' # UpdateGui [] #
           StatusConfig ''Scan complete. Next scan in 15s.'' # scan_and_update later \<and>
         update_gui g (collect_devices discovered) =
           (g\<lparr>status_label := ''No devices found. Retrying...''\<rparr>, None) \<and>
         run_callback g (UpdateGui (collect_devices discovered)) =
           g\<lparr>status_label := ''No devices found. Retrying...''\<rparr> \<and>
         mainloop g (scan_and_update [Discovered discovered]) =
           g\<lparr>status_label := ''Scan complete. Next scan in 15s.''\<rparr>"
proof -
  from foldl_scan_body_none [OF assms, of "[]"]
  have "collect_devices discovered = []" by (simp add: collect_devices_def)
  then show ?thesis by (simp add: update_gui_def mainloop_def)
qed

theorem empty_cycle_witness:
  "list_all (\<lambda>obs. classify obs = None)
     [(\<lparr>name = Some ''Tag'', address = ''AA:BB:CC:DD:EE:04''\<rparr>,
       \<lparr>manufacturer_data = [76 \<mapsto> replicate 26 0],
        service_uuids = [''0000180a-0000-1000-8000-00805f9b34fb'']\<rparr>)] \<and>
   update_gui \<lparr>status_label = ''Scanning...'', device_frames = []\<rparr>
     (collect_devices
        [(\<lparr>name = Some ''Tag'', address = ''AA:BB:CC:DD:EE:04''\<rparr>,
          \<lparr>manufacturer_data = [76 \<mapsto> replicate 26 0],
           service_uuids = [''0000180a-0000-1000-8000-00805f9b34fb'']\<rparr>)]) =
     (\<lparr>status_label = ''No devices found. Retrying...'', device_frames = []\<rparr>, None)"
  using empty_cycle [of
      "[(\<lparr>name = Some ''Tag'', address = ''AA:BB:CC:DD:EE:04''\<rparr>,
         \<lparr>manufacturer_data = [76 \<mapsto> replicate 26 0],
          service_uuids = [''0000180a-0000-1000-8000-00805f9b34fb'']\<rparr>)]"
      "[]" "\<lparr>status_label = ''Scanning...'', device_frames = []\<rparr>"]
  by (simp add: classify_eq update_gui_def)

text \<open>
  Claim C7 says that every cycle queues the status \<^verbatim>\<open>Scanning...\<close>, then the
  snapshot, then the status \<^verbatim>\<open>Scan complete. Next scan in 15s.\<close>. A cycle whose
  scanner raises does not: below, the first cycle sees nothing and queues its three
  callbacks, the scanner raises in the second, which queues the status
  \<^verbatim>\<open>Scanning...\<close> alone, and the third cycle never runs. So the queue of these three
  cycles has four callbacks, not nine.
\<close>

theorem failed_scan_ends_the_queue:
  "scan_and_update [Discovered [], ScanFailed, Discovered []] =
     [StatusConfig ''Scanning...'', UpdateGui [],
      StatusConfig ''Scan complete. Next scan in 15s.'',
      StatusConfig ''Scanning...''] \<and>
   length (scan_and_update [Discovered [], ScanFailed, Discovered []]) \<noteq>
     3 * length [Discovered [], ScanFailed, Discovered []]"
  by (simp add: collect_devices_def)

text \<open>
  Claim C7, amended. Let the scans of the cycles \<open>completed\<close> run to their end, whatever
  happens in the cycles after them (\<open>rest\<close>). Then the callbacks queued in these
  cycles come in threes and there is nothing else among them: for every such cycle
  \<open>k\<close>, first the status \<^verbatim>\<open>Scanning...\<close>, then \<^verbatim>\<open>update_gui\<close> with the dict
  built from the observations of this very cycle, then the status
  \<^verbatim>\<open>Scan complete. Next scan in 15s.\<close>. So the snapshot queued directly before a
  scan-complete status is the one of the same cycle. A cycle whose scanner raises adds
  the status \<^verbatim>\<open>Scanning...\<close> alone and is the last one.
\<close>

theorem cycle_callback_order:
  "length (scan_and_update (map Discovered completed)) = 3 * length completed \<and>
   scan_and_update (map Discovered completed @ rest) =
     scan_and_update (map Discovered completed) @ scan_and_update rest \<and>
   (\<forall>k < length completed.
      scan_and_update (map Discovered completed @ rest) ! (3 * k) =
        StatusConfig ''Scanning...'' \<and>
      scan_and_update (map Discovered completed @ rest) ! (3 * k + 1) =
        UpdateGui (collect_devices (completed ! k)) \<and>
      scan_and_update (map Discovered completed @ rest) ! (3 * k + 2) =
        StatusConfig ''Scan complete. Next scan in 15s.'') \<and>
   scan_and_update (map Discovered completed @ ScanFailed # later) =
     scan_and_update (map Discovered completed) @ [StatusConfig ''Scanning...'']"
  using length_scan_and_update [of completed] scan_and_update_append [of completed]
    scan_and_update_nth [of _ completed rest]
  by simp

theorem cycle_callback_order_witness:
  "1 < length [[(\<lparr>name = None, address = ''AA:BB:CC:DD:EE:01''\<rparr>,
        \<lparr>manufacturer_data = [76 \<mapsto> replicate 27 0x55], service_uuids = []\<rparr>)],
      [(\<lparr>name = Some ''Keyboard'', address = ''AA:BB:CC:DD:EE:03''\<rparr>,
        \<lparr>manufacturer_data = Map.empty,
         service_uuids = [''0000180f-0000-1000-8000-00805f9b34fb'']\<rparr>)]] \<and>
   scan_and_update (map Discovered
     [[(\<lparr>name = None, address = ''AA:BB:CC:DD:EE:01''\<rparr>,
        \<lparr>manufacturer_data = [76 \<mapsto> replicate 27 0x55], service_uuids = []\<rparr>)],
      [(\<lparr>name = Some ''Keyboard'', address = ''AA:BB:CC:DD:EE:03''\<rparr>,
        \<lparr>manufacturer_data = Map.empty,
         service_uuids = [''0000180f-0000-1000-8000-00805f9b34fb'']\<rparr>)]] @ [ScanFailed]) ! 4 =
     UpdateGui [(''Keyboard'', Standard ''AA:BB:CC:DD:EE:03'')] \<and>
   scan_and_update (map Discovered
     [[(\<lparr>name = None, address = ''AA:BB:CC:DD:EE:01''\<rparr>,
        \<lparr>manufacturer_data = [76 \<mapsto> replicate 27 0x55], service_uuids = []\<rparr>)],
      [(\<lparr>name = Some ''Keyboard'', address = ''AA:BB:CC:DD:EE:03''\<rparr>,
        \<lparr>manufacturer_data = Map.empty,
         service_uuids = [''0000180f-0000-1000-8000-00805f9b34fb'']\<rparr>)]] @ [ScanFailed]) ! 5 =
     StatusConfig ''Scan complete. Next scan in 15s.'' \<and>
   length (scan_and_update (map Discovered
     [[(\<lparr>name = None, address = ''AA:BB:CC:DD:EE:01''\<rparr>,
        \<lparr>manufacturer_data = [76 \<mapsto> replicate 27 0x55], service_uuids = []\<rparr>)],
      [(\<lparr>name = Some ''Keyboard'', address = ''AA:BB:CC:DD:EE:03''\<rparr>,
        \<lparr>manufacturer_data = Map.empty,
         service_uuids = [''0000180f-0000-1000-8000-00805f9b34fb'']\<rparr>)]] @ [ScanFailed])) = 7"
  using cycle_callback_order [of
     "[[(\<lparr>name = None, address = ''AA:BB:CC:DD:EE:01''\<rparr>,
        \<lparr>manufacturer_data = [76 \<mapsto> replicate 27 0x55], service_uuids = []\<rparr>)],
      [(\<lparr>name = Some ''Keyboard'', address = ''AA:BB:CC:DD:EE:03''\<rparr>,
        \<lparr>manufacturer_data = Map.empty,
         service_uuids = [''0000180f-0000-1000-8000-00805f9b34fb'']\<rparr>)]]" "[ScanFailed]" "[]",
     THEN conjunct2, THEN conjunct2, THEN conjunct1, rule_format, of 1]
    cycle_callback_order [of
     "[[(\<lparr>name = None, address = ''AA:BB:CC:DD:EE:01''\<rparr>,
        \<lparr>manufacturer_data = [76 \<mapsto> replicate 27 0x55], service_uuids = []\<rparr>)],
      [(\<lparr>name = Some ''Keyboard'', address = ''AA:BB:CC:DD:EE:03''\<rparr>,
        \<lparr>manufacturer_data = Map.empty,
         service_uuids = [''0000180f-0000-1000-8000-00805f9b34fb'']\<rparr>)]]" "[ScanFailed]" "[]"]
  by (simp add: collect_devices_def scan_body_classify classify_eq name_or_def)

subsection \<open>\<^verbatim>\<open>update_gui\<close> on a snapshot that is not empty\<close>

text \<open>
  The first loop keeps the frames whose name is in the snapshot. The second loop raises
  nothing when every AirPods entry has at least 8 bytes, then the names of the frames are
  the old names and the snapshot's, a name outside the snapshot keeps its widgets, and the
  widgets of a name of the snapshot do not depend on the frames before the call.
\<close>

lemma delete_as_filter: "AList.delete k al = filter (\<lambda>entry. fst entry \<noteq> k) al"
  by (induction al) auto

lemma fold_delete_filter:
  "fold (\<lambda>n acc. if P n then AList.delete n acc else acc) ks al =
     filter (\<lambda>entry. \<not> (fst entry \<in> set ks \<and> P (fst entry))) al"
proof (induction ks arbitrary: al)
  case Nil
  then show ?case by simp
next
  case (Cons k ks)
  show ?case
    by (auto simp: Cons.IH delete_as_filter intro: filter_cong)
qed

lemma remove_old_frames_filter:
  "remove_old_frames devs fs = filter (\<lambda>entry. fst entry \<in> fst ` set devs) fs"
  unfolding remove_old_frames_def fold_delete_filter
  by (rule filter_cong) auto

lemma add_update_frames_no_error:
  "\<forall>n d. (n, Airpods d) \<in> set devs \<longrightarrow> 8 \<le> length d \<Longrightarrow>
     snd (add_update_frames fs devs) = None"
proof (induction devs arbitrary: fs)
  case Nil
  then show ?case by simp
next
  case (Cons p rest)
  obtain n entry where p: "p = (n, entry)" by (cases p)
  have rest: "\<forall>n d. (n, Airpods d) \<in> set rest \<longrightarrow> 8 \<le> length d"
    using Cons.prems by simp
  show ?case
  proof (cases entry)
    case (Airpods d)
    with Cons.prems p have "8 \<le> length d" by simp
    from parse_airpods_data_closed_form [OF this] Airpods p Cons.IH [OF rest]
    show ?thesis by (simp add: Let_def)
  next
    case (Standard a)
    with p Cons.IH [OF rest] show ?thesis by (simp add: Let_def)
  qed
qed

lemma add_update_frames_keys:
  "snd (add_update_frames fs devs) = None \<Longrightarrow>
     fst ` set (fst (add_update_frames fs devs)) = fst ` set fs \<union> fst ` set devs"
proof (induction fs devs rule: add_update_frames.induct)
  case (1 fs)
  then show ?case by simp
next
  case (2 fs n entry rest)
  show ?case
  proof (cases entry)
    case (Airpods d)
    show ?thesis
    proof (cases "parse_airpods_data d")
      case (Inl e)
      with 2(3) Airpods show ?thesis by (simp add: Let_def)
    next
      case (Inr battery_data)
      with 2(1) [OF refl refl Airpods Inr] 2(3) Airpods show ?thesis
        by (auto simp: Let_def dom_update)
    qed
  next
    case (Standard a)
    with 2(2) [OF refl refl Standard] 2(3) show ?thesis
      by (auto simp: Let_def dom_update)
  qed
qed

lemma add_update_frames_frame:
  "n \<notin> fst ` set devs \<Longrightarrow> map_of (fst (add_update_frames fs devs)) n = map_of fs n"
proof (induction fs devs rule: add_update_frames.induct)
  case (1 fs)
  then show ?case by simp
next
  case (2 fs m entry rest)
  from 2(3) have ne: "m \<noteq> n" and rest: "n \<notin> fst ` set rest" by auto
  show ?case
  proof (cases entry)
    case (Airpods d)
    show ?thesis
    proof (cases "parse_airpods_data d")
      case (Inl e)
      with Airpods ne show ?thesis by (simp add: Let_def update_conv')
    next
      case (Inr battery_data)
      with 2(1) [OF refl refl Airpods Inr rest] Airpods ne show ?thesis
        by (simp add: Let_def update_conv')
    qed
  next
    case (Standard a)
    with 2(2) [OF refl refl Standard rest] ne show ?thesis
      by (simp add: Let_def update_conv')
  qed
qed

lemma add_update_frames_from_scratch:
  "snd (add_update_frames fs devs) = None \<Longrightarrow> n \<in> fst ` set devs \<Longrightarrow>
     map_of (fst (add_update_frames fs devs)) n = map_of (fst (add_update_frames fs' devs)) n"
proof (induction fs devs arbitrary: fs' rule: add_update_frames.induct)
  case (1 fs)
  then show ?case by simp
next
  case (2 fs m entry rest)
  show ?case
  proof (cases entry)
    case (Airpods d)
    show ?thesis
    proof (cases "parse_airpods_data d")
      case (Inl e)
      with 2(3) Airpods show ?thesis by (simp add: Let_def)
    next
      case (Inr battery_data)
      show ?thesis
      proof (cases "n \<in> fst ` set rest")
        case True
        from 2(3) Airpods Inr
        have "snd (add_update_frames
                (AList.update m (map (\<lambda>(part, level). DeviceBatteryFrame part level) battery_data)
                  (AList.update m [] (if m \<notin> fst ` set fs then AList.update m [] fs else fs))) rest) = None"
          by (simp add: Let_def)
        from 2(1) [OF refl refl Airpods Inr this True] Airpods Inr show ?thesis
          by (simp add: Let_def)
      next
        case False
        with 2(4) have "n = m" by auto
        with False Airpods Inr show ?thesis
          by (simp add: Let_def add_update_frames_frame update_conv')
      qed
    qed
  next
    case (Standard a)
    show ?thesis
    proof (cases "n \<in> fst ` set rest")
      case True
      from 2(3) Standard
      have "snd (add_update_frames
              (AList.update m [Label ''Standard battery device detected.'']
                (AList.update m [] (if m \<notin> fst ` set fs then AList.update m [] fs else fs))) rest) = None"
        by (simp add: Let_def)
      from 2(2) [OF refl refl Standard this True] Standard show ?thesis
        by (simp add: Let_def)
    next
      case False
      with 2(4) have "n = m" by auto
      with False Standard show ?thesis
        by (simp add: Let_def add_update_frames_frame update_conv')
    qed
  qed
qed

text \<open>Every AirPods entry the scan loop builds has 27 bytes.\<close>

lemma scan_body_airpods_length:
  "\<forall>n d. (n, Airpods d) \<in> set devices_found \<longrightarrow> length d = 27 \<Longrightarrow>
     \<forall>n d. (n, Airpods d) \<in> set (scan_body devices_found obs) \<longrightarrow> length d = 27"
  by (cases obs)
    (auto simp: scan_body_classify classify_eq split: option.splits if_splits)

lemma foldl_scan_body_airpods_length:
  "\<forall>n d. (n, Airpods d) \<in> set devices_found \<longrightarrow> length d = 27 \<Longrightarrow>
     \<forall>n d. (n, Airpods d) \<in> set (foldl scan_body devices_found discovered) \<longrightarrow> length d = 27"
proof (induction discovered arbitrary: devices_found)
  case Nil
  then show ?case by simp
next
  case (Cons obs rest)
  from Cons.IH [OF scan_body_airpods_length [OF Cons.prems, of obs]]
  show ?case by simp
qed

lemma collect_devices_airpods_length:
  "(n, Airpods d) \<in> set (collect_devices discovered) \<Longrightarrow> length d = 27"
  using foldl_scan_body_airpods_length [of "[]" discovered]
  by (simp add: collect_devices_def)

text \<open>
  So on a snapshot that is not empty and whose AirPods entries have 27 bytes,
  \<^verbatim>\<open>update_gui\<close> raises nothing, leaves the status text alone, and the frames
  afterwards have exactly the names of the snapshot, with widgets that are the same
  whatever the window was before.
\<close>

lemma update_gui_replaces_snapshot:
  assumes "devs \<noteq> []"
    and "\<forall>n d. (n, Airpods d) \<in> set devs \<longrightarrow> length d = 27"
  shows "snd (update_gui g devs) = None \<and>
         status_label (fst (update_gui g devs)) = status_label g \<and>
         fst ` set (device_frames (fst (update_gui g devs))) = fst ` set devs \<and>
         map_of (device_frames (fst (update_gui g devs))) =
           map_of (device_frames (fst (update_gui g' devs)))"
proof -
  let ?kept = "remove_old_frames devs (device_frames g)"
  let ?kept' = "remove_old_frames devs (device_frames g')"
  have dec: "\<forall>n d. (n, Airpods d) \<in> set devs \<longrightarrow> 8 \<le> length d"
    using assms(2) by fastforce
  have ok: "snd (add_update_frames ?kept devs) = None"
    and ok': "snd (add_update_frames ?kept' devs) = None"
    using dec by (rule add_update_frames_no_error)+
  have keys: "fst ` set (fst (add_update_frames ?kept devs)) = fst ` set devs"
    using add_update_frames_keys [OF ok] by (auto simp: remove_old_frames_filter)
  have keys': "fst ` set (fst (add_update_frames ?kept' devs)) = fst ` set devs"
    using add_update_frames_keys [OF ok'] by (auto simp: remove_old_frames_filter)
  have "map_of (fst (add_update_frames ?kept devs)) n =
        map_of (fst (add_update_frames ?kept' devs)) n" for n
  proof (cases "n \<in> fst ` set devs")
    case True
    from add_update_frames_from_scratch [OF ok True] show ?thesis .
  next
    case False
    with keys keys' have "map_of (fst (add_update_frames ?kept devs)) n = None"
      and "map_of (fst (add_update_frames ?kept' devs)) n = None"
      by (simp_all add: map_of_eq_None_iff)
    then show ?thesis by simp
  qed
  then have "map_of (fst (add_update_frames ?kept devs)) =
             map_of (fst (add_update_frames ?kept' devs))" by (rule ext)
  with ok keys assms(1) show ?thesis
    by (simp add: update_gui_def case_prod_beta)
qed

subsection \<open>\<^verbatim>\<open>update_gui\<close> on the empty snapshot\<close>

text \<open>
  Claim C6 says that a name of the window that is absent from the next cycle's devices is
  absent from the window after that cycle's snapshot. The code does so only when the next
  snapshot is not empty (\<open>update_gui_replaces_snapshot\<close>). On the empty snapshot
  \<^verbatim>\<open>update_gui\<close> returns before the loop that removes old frames, so all frames stay.
  The run below has a cycle that sees one unnamed AirPods device and then a cycle that
  sees nothing: the frame \<^verbatim>\<open>AirPods\<close> with its three gauges is still in the window
  after the second cycle, under the status \<^verbatim>\<open>Scan complete. Next scan in 15s.\<close>.
\<close>

theorem stale_frames_after_empty_cycle:
  "(\<forall>g. device_frames (fst (update_gui g [])) = device_frames g) \<and>
   (let cycle_N = [(\<lparr>name = None, address = ''AA:BB:CC:DD:EE:01''\<rparr>,
                    \<lparr>manufacturer_data = [76 \<mapsto> replicate 27 0x55], service_uuids = []\<rparr>)];
        after_N = mainloop init_gui (scan_and_update [Discovered cycle_N]);
        after_N1 = mainloop after_N (scan_and_update [Discovered []])
    in device_frames after_N =
         [(''AirPods'', [DeviceBatteryFrame ''Left'' (Some 50),
                         DeviceBatteryFrame ''Right'' (Some 50),
                         DeviceBatteryFrame ''Case'' (Some 50)])] \<and>
       collect_devices [] = [] \<and>
       device_frames after_N1 = device_frames after_N \<and>
       status_label after_N1 = ''Scan complete. Next scan in 15s.'')"
proof -
  have general: "\<forall>g. device_frames (fst (update_gui g [])) = device_frames g"
    by (simp add: update_gui_def)
  have after_N: "mainloop init_gui (scan_and_update
      [Discovered [(\<lparr>name = None, address = ''AA:BB:CC:DD:EE:01''\<rparr>,
         \<lparr>manufacturer_data = [76 \<mapsto> replicate 27 0x55], service_uuids = []\<rparr>)]]) =
      \<lparr>status_label = ''Scan complete. Next scan in 15s.'',
       device_frames = [(''AirPods'', [DeviceBatteryFrame ''Left'' (Some 50),
                         DeviceBatteryFrame ''Right'' (Some 50),
                         DeviceBatteryFrame ''Case'' (Some 50)])]\<rparr>"
    by code_simp
  have after_N1: "mainloop
      \<lparr>status_label = ''Scan complete. Next scan in 15s.'',
       device_frames = [(''AirPods'', [DeviceBatteryFrame ''Left'' (Some 50),
                         DeviceBatteryFrame ''Right'' (Some 50),
                         DeviceBatteryFrame ''Case'' (Some 50)])]\<rparr>
      (scan_and_update [Discovered []]) =
      \<lparr>status_label = ''Scan complete. Next scan in 15s.'',
       device_frames = [(''AirPods'', [DeviceBatteryFrame ''Left'' (Some 50),
                         DeviceBatteryFrame ''Right'' (Some 50),
                         DeviceBatteryFrame ''Case'' (Some 50)])]\<rparr>"
    by code_simp
  have none: "collect_devices [] = []"
    by (simp add: collect_devices_def)
  show ?thesis
    unfolding Let_def after_N after_N1
    using general none by simp
qed

end
